theory Spec2Isabelle
  imports Complex_Main
begin

section \<open>Data model of the image search core\<close>

text \<open>
  The development embeds \<^verbatim>\<open>core/image_search/image_search.py\<close>.  Scores are the
  floating-point numbers of the correlation engine; the code only compares them with
  each other and with constants, so they are modelled as reals.  Pixel arrays are
  opaque: they are a type parameter \<open>'img\<close>.
\<close>

datatype error = ScreenshotError | AttributeError | TypeError | CvError

datatype Location = Location (loc_x: int) (loc_y: int)

record Rectangle =
  rect_x :: int
  rect_y :: int
  rect_width :: int
  rect_height :: int

text \<open>
  A pattern carries its similarity threshold, its file name (for log lines), its colour
  and grey pixel arrays and its size \<open>(width, height)\<close>.
\<close>

record 'img Pattern =
  pat_similarity :: real
  pat_filename :: string
  pat_color :: 'img
  pat_gray :: 'img
  pat_size :: "int \<times> int"

record 'img ScreenshotImage =
  shot_color :: 'img
  shot_gray :: 'img

type_synonym surface = "real list list"

datatype log_level = Debug | Warning

datatype log_message =
    Searching_for_pattern string
  | Screenshot_failed
  | Pattern_Width_greater int int
  | Pattern_Height_greater int int
  | Searching_for_image string real

text \<open>
  The collaborators are parameters: the wall clock (its successive readings), the capture
  service (its successive captures, each for the region asked), the correlation engine
  and the configured default wait.
\<close>

record 'img env =
  now_at :: "nat \<Rightarrow> real"
  capture_at :: "nat \<Rightarrow> Rectangle option \<Rightarrow> error + 'img ScreenshotImage"
  matchTemplate :: "'img \<Rightarrow> 'img \<Rightarrow> error + surface"
  auto_wait_timeout :: real

text \<open>
  The effects of a call: how many clock readings and captures it has consumed, the
  arguments \<open>(haystack, needle)\<close> of every call of the engine, and the log lines.
\<close>

record 'img world =
  clock_reads :: nat
  captures :: nat
  engine_calls :: "('img \<times> 'img) list"
  logged :: "(log_level \<times> log_message) list"

definition emit :: "log_level \<Rightarrow> log_message \<Rightarrow> 'img world \<Rightarrow> 'img world" where
  "emit lvl msg w = w\<lparr>logged := logged w @ [(lvl, msg)]\<rparr>"

definition now :: "'img env \<Rightarrow> 'img world \<Rightarrow> real \<times> 'img world" where
  "now env w = (now_at env (clock_reads w), w\<lparr>clock_reads := Suc (clock_reads w)\<rparr>)"

definition take_screenshot ::
  "'img env \<Rightarrow> Rectangle option \<Rightarrow> 'img world \<Rightarrow> (error + 'img ScreenshotImage) \<times> 'img world" where
  "take_screenshot env region w =
     (capture_at env (captures w) region, w\<lparr>captures := Suc (captures w)\<rparr>)"

definition cv2_matchTemplate ::
  "'img env \<Rightarrow> 'img \<Rightarrow> 'img \<Rightarrow> 'img world \<Rightarrow> (error + surface) \<times> 'img world" where
  "cv2_matchTemplate env haystack needle w =
     (matchTemplate env haystack needle,
      w\<lparr>engine_calls := engine_calls w @ [(haystack, needle)]\<rparr>)"

section \<open>The score surface\<close>

text \<open>
  A surface is a list of rows; \<open>res ! r ! c\<close> is the score at row \<open>r\<close> (the y coordinate)
  and column \<open>c\<close> (the x coordinate).  The engine yields a rectangular surface with at
  least one cell.
\<close>

definition wf_surface :: "surface \<Rightarrow> bool" where
  "wf_surface res = (res \<noteq> [] \<and> hd res \<noteq> [] \<and> (\<forall>row \<in> set res. length row = length (hd res)))"

definition surf_height :: "surface \<Rightarrow> nat" where
  "surf_height res = length res"

definition surf_width :: "surface \<Rightarrow> nat" where
  "surf_width res = length (hd res)"

text \<open>
  Index normalisation of the array library: an index \<open>i\<close> into an axis of length \<open>n\<close> is
  valid from \<open>-n\<close> to \<open>n - 1\<close>, a negative one counting from the end; anything else raises
  \<^verbatim>\<open>IndexError\<close> (here \<open>None\<close>).
\<close>

definition np_index :: "nat \<Rightarrow> int \<Rightarrow> nat option" where
  "np_index n i =
     (if 0 \<le> i \<and> i < int n then Some (nat i)
      else if - int n \<le> i \<and> i < 0 then Some (nat (i + int n))
      else None)"

text \<open>
  \<^verbatim>\<open>try: res[y][x] = v except IndexError: pass\<close>
\<close>

definition set_cell :: "surface \<Rightarrow> int \<Rightarrow> int \<Rightarrow> real \<Rightarrow> surface" where
  "set_cell res y x v =
     (case np_index (length res) y of
        None \<Rightarrow> res
      | Some r \<Rightarrow>
          (case np_index (length (res ! r)) x of
             None \<Rightarrow> res
           | Some c \<Rightarrow> res[r := (res ! r)[c := v]]))"

text \<open>Python's \<^verbatim>\<open>int(f)\<close> on a float: truncation towards zero.\<close>

definition py_int :: "real \<Rightarrow> int" where
  "py_int f = (if 0 \<le> f then \<lfloor>f\<rfloor> else \<lceil>f\<rceil>)"

text \<open>Python's \<^verbatim>\<open>range(a, b)\<close>.\<close>

definition py_range :: "int \<Rightarrow> int \<Rightarrow> int list" where
  "py_range a b = [a..b - 1]"

definition SUPPRESSED :: real where
  "SUPPRESSED = - 10000"

text \<open>
  The two nested \<^verbatim>\<open>for\<close> loops of \<^verbatim>\<open>match_template_multiple\<close> (lines 116 to 121): \<open>x\<close> is
  the outer loop, \<open>y\<close> the inner one.
\<close>

definition suppress :: "surface \<Rightarrow> int \<times> int \<Rightarrow> int \<times> int \<Rightarrow> surface" where
  "suppress res top_left sz =
     (let (sx, sy) = top_left; (width, height) = sz in
      fold (\<lambda>x res1.
              fold (\<lambda>y res2. set_cell res2 y x SUPPRESSED)
                (py_range (py_int (real_of_int sy - real_of_int height / 2))
                          (py_int (real_of_int sy + real_of_int height / 2))) res1)
        (py_range (py_int (real_of_int sx - real_of_int width / 2))
                  (py_int (real_of_int sx + real_of_int width / 2))) res)"

text \<open>
  The engine's \<^verbatim>\<open>minMaxLoc\<close>: the global extrema of the surface and their locations
  \<open>(x, y)\<close>, the first one in row-major order when several cells tie.  A surface with no
  cell never comes out of the engine; the value chosen for it is never used.
\<close>

definition cells :: "surface \<Rightarrow> ((int \<times> int) \<times> real) list" where
  "cells res =
     concat (map (\<lambda>(r, row). map (\<lambda>(c, v). ((int c, int r), v)) (enumerate 0 row))
                 (enumerate 0 res))"

definition minMaxLoc :: "surface \<Rightarrow> real \<times> real \<times> (int \<times> int) \<times> (int \<times> int)" where
  "minMaxLoc res =
     (case cells res of
        [] \<Rightarrow> (0, 0, (- 1, - 1), (- 1, - 1))
      | c # cs \<Rightarrow>
          (let mn = fold (\<lambda>d b. if snd d < snd b then d else b) cs c;
               mx = fold (\<lambda>d b. if snd b < snd d then d else b) cs c
           in (snd mn, snd mx, fst mn, fst mx)))"

datatype find_method = TM_SQDIFF | TM_SQDIFF_NORMED | TM_CCORR | TM_CCORR_NORMED
  | TM_CCOEFF | TM_CCOEFF_NORMED

definition FIND_METHOD :: find_method where
  "FIND_METHOD = TM_CCOEFF_NORMED"

section \<open>Multi-match extraction\<close>

text \<open>
  The \<^verbatim>\<open>while True\<close> loop of \<^verbatim>\<open>match_template_multiple\<close> (lines 106 to 125).  It has no
  bound of its own; a run that never leaves the loop is the value \<open>None\<close>.
\<close>

partial_function (option) extract_matches ::
  "real \<Rightarrow> real \<Rightarrow> int \<times> int \<Rightarrow> surface \<Rightarrow> Location list \<Rightarrow> Location list option" where
  "extract_matches precision threshold sz res final_matches =
     (let (min_val, max_val, min_loc, best_match) = minMaxLoc res;
          top_left = (if FIND_METHOD \<in> {TM_SQDIFF, TM_SQDIFF_NORMED} then min_loc else best_match)
      in if precision > max_val \<and> max_val > threshold
         then extract_matches precision threshold sz (suppress res top_left sz)
                (final_matches @ [Location (fst top_left) (snd top_left)])
         else Some final_matches)"

declare extract_matches.simps [code]

section \<open>The guard and the two searches\<close>

text \<open>
  \<^verbatim>\<open>is_pattern_size_correct\<close> reads \<^verbatim>\<open>region.width\<close> without testing the region: with no
  region the attribute access raises \<^verbatim>\<open>AttributeError\<close>, after \<^verbatim>\<open>pattern.get_size()\<close> and
  before any log line.
\<close>

definition is_pattern_size_correct ::
  "'img Pattern \<Rightarrow> Rectangle option \<Rightarrow> 'img world \<Rightarrow> (error + bool) \<times> 'img world" where
  "is_pattern_size_correct pattern region w =
     (let (p_width, p_height) = pat_size pattern in
      case region of
        None \<Rightarrow> (Inl AttributeError, w)
      | Some r \<Rightarrow>
          (let r_width = rect_width r;
               r_height = rect_height r;
               is_correct = True;
               (is_correct, w) =
                 (if p_width > r_width
                  then (False, emit Warning (Pattern_Width_greater p_width r_width) w)
                  else (is_correct, w));
               (is_correct, w) =
                 (if p_height > r_height
                  then (False, emit Warning (Pattern_Height_greater p_height r_height) w)
                  else (is_correct, w))
           in (Inr is_correct, w)))"

text \<open>
  \<^verbatim>\<open>except ScreenshotError\<close>: only that error is caught; any other one leaves the
  function.
\<close>

definition match_template ::
  "'img env \<Rightarrow> 'img Pattern \<Rightarrow> Rectangle option \<Rightarrow> 'img world \<Rightarrow> (error + Location) \<times> 'img world" where
  "match_template env pattern region w =
     (let w = emit Debug (Searching_for_pattern (pat_filename pattern)) w;
          (tried, w) =
            (case take_screenshot env region w of
               (Inl e, w) \<Rightarrow> (Inl e, w)
             | (Inr stack_image, w) \<Rightarrow>
                 (let precision = pat_similarity pattern;
                      needle = (if precision = 0.99 then pat_color pattern else pat_gray pattern);
                      haystack = (if precision = 0.99 then shot_color stack_image
                                  else shot_gray stack_image)
                  in case cv2_matchTemplate env haystack needle w of
                       (Inl e, w) \<Rightarrow> (Inl e, w)
                     | (Inr res, w) \<Rightarrow>
                         (let (min_val, max_val, min_loc, max_loc) = minMaxLoc res
                          in if max_val < precision
                             then (Inr (Location (- 1) (- 1)), w)
                             else (Inr (Location (fst max_loc) (snd max_loc)), w))));
          (caught, w) =
            (case tried of
               Inl e \<Rightarrow>
                 (if e = ScreenshotError
                  then (Inr (Location (- 1) (- 1)), emit Warning Screenshot_failed w)
                  else (Inl e, w))
             | Inr position \<Rightarrow> (Inr position, w))
      in case caught of
           Inl e \<Rightarrow> (Inl e, w)
         | Inr position \<Rightarrow>
             (if loc_x position = - 1 \<or> loc_y position = - 1 then (Inr position, w)
              else (case region of
                      Some r \<Rightarrow>
                        (Inr (Location (loc_x position + rect_x r) (loc_y position + rect_y r)), w)
                    | None \<Rightarrow> (Inr position, w))))"

text \<open>
  \<^verbatim>\<open>match_template_multiple\<close>: one capture, one call of the engine, then the extraction
  loop, which touches nothing but the surface and the list of matches.
\<close>

definition match_template_multiple ::
  "'img env \<Rightarrow> 'img Pattern \<Rightarrow> Rectangle option \<Rightarrow> real \<Rightarrow> 'img world
     \<Rightarrow> ((error + Location list) \<times> 'img world) option" where
  "match_template_multiple env pattern region threshold w =
     (let w = emit Debug (Searching_for_pattern (pat_filename pattern)) w;
          except = (\<lambda>e w. if e = ScreenshotError
                           then Some (Inr [], emit Warning Screenshot_failed w)
                           else Some (Inl e, w))
      in case take_screenshot env region w of
           (Inl e, w) \<Rightarrow> except e w
         | (Inr stack_image, w) \<Rightarrow>
             (let precision = pat_similarity pattern;
                  needle = (if precision = 0.99 then pat_color pattern else pat_gray pattern);
                  haystack = (if precision = 0.99 then shot_color stack_image
                              else shot_gray stack_image)
              in case cv2_matchTemplate env haystack needle w of
                   (Inl e, w) \<Rightarrow> except e w
                 | (Inr res, w) \<Rightarrow>
                     map_option (\<lambda>final_matches. (Inr final_matches, w))
                       (extract_matches precision threshold (pat_size pattern) res [])))"

section \<open>The polling wrappers\<close>

text \<open>
  Clock readings and timeouts are seconds.  \<^verbatim>\<open>datetime.timedelta(seconds=t)\<close> keeps whole
  microseconds: it rounds \<open>t\<close> to the nearest microsecond, a tie going to the even one.
\<close>

definition round_half_even :: "real \<Rightarrow> int" where
  "round_half_even x =
     (let f = \<lfloor>x\<rfloor>; d = x - real_of_int f
      in if d < 1 / 2 then f else if 1 / 2 < d then f + 1 else if even f then f else f + 1)"

definition timedelta_seconds :: "real \<Rightarrow> real" where
  "timedelta_seconds t = real_of_int (round_half_even (t * 1000000)) / 1000000"

partial_function (option) image_find_loop ::
  "'img env \<Rightarrow> 'img Pattern \<Rightarrow> Rectangle option \<Rightarrow> real \<Rightarrow> real \<Rightarrow> 'img world
     \<Rightarrow> ((error + Location option) \<times> 'img world) option" where
  "image_find_loop env pattern region end_time start_time w =
     (if start_time < end_time
      then (let time_remaining = end_time - start_time;
                w = emit Debug (Searching_for_image (pat_filename pattern) time_remaining) w
            in case match_template env pattern region w of
                 (Inl e, w) \<Rightarrow> Some (Inl e, w)
               | (Inr pos, w) \<Rightarrow>
                   (let (start_time, w) = now env w
                    in if loc_x pos \<noteq> - 1 then Some (Inr (Some pos), w)
                       else image_find_loop env pattern region end_time start_time w))
      else Some (Inr None, w))"

declare image_find_loop.simps [code]

definition image_find ::
  "'img env \<Rightarrow> 'img Pattern \<Rightarrow> real option \<Rightarrow> Rectangle option \<Rightarrow> 'img world
     \<Rightarrow> ((error + Location option) \<times> 'img world) option" where
  "image_find env pattern timeout region w =
     (case is_pattern_size_correct pattern region w of
        (Inl e, w) \<Rightarrow> Some (Inl e, w)
      | (Inr ok, w) \<Rightarrow>
          (if \<not> ok then Some (Inr None, w)
           else (let timeout = (case timeout of None \<Rightarrow> auto_wait_timeout env | Some t \<Rightarrow> t);
                     (start_time, w) = now env w;
                     end_time = start_time + timedelta_seconds timeout
                 in image_find_loop env pattern region end_time start_time w)))"

text \<open>
  \<^verbatim>\<open>image_vanish\<close> has no default for the timeout: \<^verbatim>\<open>timedelta(seconds=None)\<close> raises
  \<^verbatim>\<open>TypeError\<close>, after the guard and the first clock reading.
\<close>

partial_function (option) image_vanish_loop ::
  "'img env \<Rightarrow> 'img Pattern \<Rightarrow> Rectangle option \<Rightarrow> real \<Rightarrow> bool \<Rightarrow> real \<Rightarrow> 'img world
     \<Rightarrow> ((error + bool option) \<times> 'img world) option" where
  "image_vanish_loop env pattern region end_time pattern_found start_time w =
     (if pattern_found \<and> start_time < end_time
      then (case match_template env pattern region w of
              (Inl e, w) \<Rightarrow> Some (Inl e, w)
            | (Inr image_found, w) \<Rightarrow>
                (let pattern_found = (loc_x image_found \<noteq> - 1 \<and> loc_y image_found \<noteq> - 1);
                     (start_time, w) = now env w
                 in image_vanish_loop env pattern region end_time pattern_found start_time w))
      else Some (Inr (if pattern_found then None else Some True), w))"

declare image_vanish_loop.simps [code]

definition image_vanish ::
  "'img env \<Rightarrow> 'img Pattern \<Rightarrow> real option \<Rightarrow> Rectangle option \<Rightarrow> 'img world
     \<Rightarrow> ((error + bool option) \<times> 'img world) option" where
  "image_vanish env pattern timeout region w =
     (case is_pattern_size_correct pattern region w of
        (Inl e, w) \<Rightarrow> Some (Inl e, w)
      | (Inr ok, w) \<Rightarrow>
          (if \<not> ok then Some (Inr None, w)
           else (let pattern_found = True;
                     (start_time, w) = now env w
                 in case timeout of
                      None \<Rightarrow> Some (Inl TypeError, w)
                    | Some t \<Rightarrow>
                        image_vanish_loop env pattern region
                          (start_time + timedelta_seconds t) pattern_found start_time w)))"

section \<open>The collaborators as the specification describes them\<close>









section \<open>Notions used in the statements\<close>

definition max_val :: "surface \<Rightarrow> real" where
  "max_val res = fst (snd (minMaxLoc res))"

definition max_loc :: "surface \<Rightarrow> int \<times> int" where
  "max_loc res = snd (snd (snd (minMaxLoc res)))"

text \<open>The score of the cell at column \<open>x\<close> and row \<open>y\<close>.\<close>

definition score_at :: "surface \<Rightarrow> int \<times> int \<Rightarrow> real" where
  "score_at res p = res ! nat (snd p) ! nat (fst p)"

text \<open>The pair \<open>(haystack, needle)\<close> that lines 60 and 61 (100 and 101) hand to the engine.\<close>

definition chosen :: "'img Pattern \<Rightarrow> 'img ScreenshotImage \<Rightarrow> 'img \<times> 'img" where
  "chosen pattern stack_image =
     (if pat_similarity pattern = 0.99 then (shot_color stack_image, pat_color pattern)
      else (shot_gray stack_image, pat_gray pattern))"

text \<open>The world after the debug line and the capture that open both searches.\<close>

definition searching :: "'img Pattern \<Rightarrow> 'img world \<Rightarrow> 'img world" where
  "searching pattern w =
     (emit Debug (Searching_for_pattern (pat_filename pattern)) w)\<lparr>captures := Suc (captures w)\<rparr>"

text \<open>Lines 79 to 84 of \<^verbatim>\<open>match_template\<close>.\<close>

definition translate :: "Rectangle option \<Rightarrow> Location \<Rightarrow> Location" where
  "translate region position =
     (if loc_x position = - 1 \<or> loc_y position = - 1 then position
      else case region of None \<Rightarrow> position
           | Some r \<Rightarrow> Location (loc_x position + rect_x r) (loc_y position + rect_y r))"

text \<open>
  The index pairs \<open>(x, y)\<close> that the two suppression loops visit, in the order of the
  visits: the suppression window.
\<close>

definition window :: "int \<times> int \<Rightarrow> int \<times> int \<Rightarrow> (int \<times> int) list" where
  "window top_left sz =
     concat (map (\<lambda>x. map (\<lambda>y. (x, y))
                          (py_range (py_int (real_of_int (snd top_left) - real_of_int (snd sz) / 2))
                                    (py_int (real_of_int (snd top_left) + real_of_int (snd sz) / 2))))
                 (py_range (py_int (real_of_int (fst top_left) - real_of_int (fst sz) / 2))
                           (py_int (real_of_int (fst top_left) + real_of_int (fst sz) / 2))))"

text \<open>A surface of \<open>h\<close> rows that all have \<open>w\<close> cells.\<close>

definition rectangular :: "nat \<Rightarrow> nat \<Rightarrow> surface \<Rightarrow> bool" where
  "rectangular h w res = (length res = h \<and> (\<forall>row \<in> set res. length row = w))"

text \<open>The cells that still score above the overlap threshold.\<close>

definition candidates :: "real \<Rightarrow> nat \<Rightarrow> nat \<Rightarrow> surface \<Rightarrow> (nat \<times> nat) set" where
  "candidates threshold h w res = {(r, c). r < h \<and> c < w \<and> threshold < res ! r ! c}"

section \<open>Concrete inputs\<close>

text \<open>
  A test double of the collaborators: pixel arrays are score surfaces, the engine hands
  the haystack back as the surface, the clock advances by one second at each reading.
\<close>

definition demo_env :: "surface env" where
  "demo_env = \<lparr>now_at = (\<lambda>n. real n),
     capture_at = (\<lambda>n region. Inr \<lparr>shot_color = [[1]], shot_gray = [[1 / 2, 1]]\<rparr>),
     matchTemplate = (\<lambda>haystack needle. Inr haystack), auto_wait_timeout = 3\<rparr>"

definition blind_env :: "surface env" where
  "blind_env = demo_env\<lparr>capture_at := (\<lambda>n region. Inl ScreenshotError)\<rparr>"

definition icon :: "surface Pattern" where
  "icon = \<lparr>pat_similarity = 9 / 10, pat_filename = ''icon.png'', pat_color = [[1]],
     pat_gray = [[1]], pat_size = (1, 1)\<rparr>"

definition screen_region :: Rectangle where
  "screen_region = \<lparr>rect_x = 5, rect_y = 7, rect_width = 10, rect_height = 10\<rparr>"

definition start_world :: "surface world" where
  "start_world = \<lparr>clock_reads = 0, captures = 0, engine_calls = [], logged = []\<rparr>"

definition spread_surface :: surface where
  "spread_surface = [[1 / 10, 2 / 10, 3 / 10], [4 / 10, 6 / 10, 6 / 10], [7 / 10, 8 / 10, 2 / 10]]"

definition corner_surface :: surface where
  "corner_surface = [[8 / 10, 2 / 10, 3 / 10], [4 / 10, 5 / 10, 6 / 10], [7 / 10, 1 / 10, 6 / 10]]"

definition thin_surface :: surface where
  "thin_surface = [[1 / 10, 8 / 10], [2 / 10, 3 / 10]]"

definition busy_env :: "surface env" where
  "busy_env = demo_env\<lparr>capture_at :=
     (\<lambda>n region. Inr \<lparr>shot_color = [[1]], shot_gray = spread_surface\<rparr>)\<rparr>"

definition tile :: "surface Pattern" where
  "tile = \<lparr>pat_similarity = 9 / 10, pat_filename = ''tile.png'', pat_color = [[1]],
     pat_gray = [[1]], pat_size = (2, 2)\<rparr>"




definition edge_region :: Rectangle where
  "edge_region = \<lparr>rect_x = - 2, rect_y = 7, rect_width = 3, rect_height = 2\<rparr>"

section \<open>The searches, case by case\<close>

lemma match_template_failed:
  "capture_at env (captures w) region = Inl e \<Longrightarrow>
   match_template env pattern region w =
     (if e = ScreenshotError
      then (Inr (Location (- 1) (- 1)), emit Warning Screenshot_failed (searching pattern w))
      else (Inl e, searching pattern w))"
  by (simp add: match_template_def take_screenshot_def searching_def emit_def)

lemma match_template_captured:
  assumes "capture_at env (captures w) region = Inr stack_image"
  shows "match_template env pattern region w =
     (let w1 = (searching pattern w)\<lparr>engine_calls := engine_calls w @ [chosen pattern stack_image]\<rparr>
      in case matchTemplate env (fst (chosen pattern stack_image)) (snd (chosen pattern stack_image)) of
           Inl e \<Rightarrow> (if e = ScreenshotError
                     then (Inr (Location (- 1) (- 1)), emit Warning Screenshot_failed w1)
                     else (Inl e, w1))
         | Inr res \<Rightarrow>
             (Inr (translate region
                     (if max_val res < pat_similarity pattern then Location (- 1) (- 1)
                      else Location (fst (max_loc res)) (snd (max_loc res)))), w1))"
proof (cases "matchTemplate env (fst (chosen pattern stack_image)) (snd (chosen pattern stack_image))")
  case (Inl e)
  then show ?thesis
    using assms
    by (cases "pat_similarity pattern = 0.99"; cases region)
       (simp_all add: match_template_def take_screenshot_def cv2_matchTemplate_def searching_def
          emit_def chosen_def Let_def)
next
  case (Inr res)
  then show ?thesis
    using assms
    by (cases "pat_similarity pattern = 0.99"; cases region)
       (simp_all add: match_template_def take_screenshot_def cv2_matchTemplate_def searching_def
          emit_def chosen_def translate_def max_val_def max_loc_def Let_def split_beta)
qed

lemma match_template_multiple_failed:
  "capture_at env (captures w) region = Inl e \<Longrightarrow>
   match_template_multiple env pattern region threshold w =
     (if e = ScreenshotError
      then Some (Inr [], emit Warning Screenshot_failed (searching pattern w))
      else Some (Inl e, searching pattern w))"
  by (simp add: match_template_multiple_def take_screenshot_def searching_def emit_def)

lemma match_template_multiple_captured:
  assumes "capture_at env (captures w) region = Inr stack_image"
  shows "match_template_multiple env pattern region threshold w =
     (let w1 = (searching pattern w)\<lparr>engine_calls := engine_calls w @ [chosen pattern stack_image]\<rparr>
      in case matchTemplate env (fst (chosen pattern stack_image)) (snd (chosen pattern stack_image)) of
           Inl e \<Rightarrow> (if e = ScreenshotError
                     then Some (Inr [], emit Warning Screenshot_failed w1)
                     else Some (Inl e, w1))
         | Inr res \<Rightarrow>
             map_option (\<lambda>final_matches. (Inr final_matches, w1))
               (extract_matches (pat_similarity pattern) threshold (pat_size pattern) res []))"
proof (cases "matchTemplate env (fst (chosen pattern stack_image)) (snd (chosen pattern stack_image))")
  case (Inl e)
  then show ?thesis
    using assms
    by (cases "pat_similarity pattern = 0.99")
       (simp_all add: match_template_multiple_def take_screenshot_def cv2_matchTemplate_def
          searching_def emit_def chosen_def Let_def)
next
  case (Inr res)
  then show ?thesis
    using assms
    by (cases "pat_similarity pattern = 0.99")
       (simp_all add: match_template_multiple_def take_screenshot_def cv2_matchTemplate_def
          searching_def emit_def chosen_def Let_def)
qed

lemma guard_absent: "is_pattern_size_correct pattern None w = (Inl AttributeError, w)"
  by (simp add: is_pattern_size_correct_def split: prod.splits)

lemma guard_present:
  "is_pattern_size_correct pattern (Some r) w =
     (Inr (fst (pat_size pattern) \<le> rect_width r \<and> snd (pat_size pattern) \<le> rect_height r),
      w\<lparr>logged := logged w
           @ (if fst (pat_size pattern) > rect_width r
              then [(Warning, Pattern_Width_greater (fst (pat_size pattern)) (rect_width r))]
              else [])
           @ (if snd (pat_size pattern) > rect_height r
              then [(Warning, Pattern_Height_greater (snd (pat_size pattern)) (rect_height r))]
              else [])\<rparr>)"
  by (auto simp: is_pattern_size_correct_def emit_def split: prod.splits)

section \<open>Writing into the surface\<close>

lemma wf_surface_rectangular:
  "wf_surface res \<longleftrightarrow> rectangular (surf_height res) (surf_width res) res \<and> 0 < surf_height res \<and> 0 < surf_width res"
  by (auto simp: wf_surface_def rectangular_def surf_height_def surf_width_def)

lemma rectangular_nth: "rectangular h w res \<Longrightarrow> r < h \<Longrightarrow> length (res ! r) = w"
  by (simp add: rectangular_def)

lemma np_index_less: "np_index n i = Some k \<Longrightarrow> k < n"
  by (auto simp: np_index_def split: if_splits)

lemma set_cell_rectangular:
  "rectangular h w res \<Longrightarrow> rectangular h w (set_cell res y x v)"
  by (auto simp: set_cell_def rectangular_def split: option.splits dest!: set_update_subset_insert [THEN subsetD] dest: np_index_less)

lemma set_cell_nth:
  assumes "rectangular h w res" "r < h" "c < w"
  shows "set_cell res y x v ! r ! c =
           (if np_index h y = Some r \<and> np_index w x = Some c then v else res ! r ! c)"
proof (cases "np_index h y")
  case None
  then show ?thesis using assms by (simp add: set_cell_def rectangular_def)
next
  case (Some r')
  then have r': "r' < h" by (rule np_index_less)
  have len: "length (res ! r') = w" using assms(1) r' by (rule rectangular_nth)
  show ?thesis
  proof (cases "np_index w x")
    case None
    then show ?thesis using assms Some len by (simp add: set_cell_def rectangular_def)
  next
    case c': (Some c')
    have "c' < w" using c' by (rule np_index_less)
    then show ?thesis
      using assms Some len c' r'
      by (auto simp: set_cell_def rectangular_def nth_list_update)
  qed
qed

lemma fold_rows_rectangular:
  "rectangular h w res \<Longrightarrow> rectangular h w (fold (\<lambda>y res2. set_cell res2 y x v) ys res)"
  by (induction ys arbitrary: res) (simp_all add: set_cell_rectangular)

lemma fold_rows_nth:
  "rectangular h w res \<Longrightarrow> r < h \<Longrightarrow> c < w \<Longrightarrow>
   fold (\<lambda>y res2. set_cell res2 y x v) ys res ! r ! c =
     (if (\<exists>y \<in> set ys. np_index h y = Some r) \<and> np_index w x = Some c then v else res ! r ! c)"
proof (induction ys arbitrary: res)
  case Nil
  then show ?case by simp
next
  case (Cons y ys)
  have "rectangular h w (set_cell res y x v)"
    using Cons.prems(1) by (rule set_cell_rectangular)
  from Cons.IH [OF this Cons.prems(2,3)] set_cell_nth [OF Cons.prems, of y x v]
  show ?case by auto
qed

lemma fold_cols_rectangular:
  "rectangular h w res \<Longrightarrow>
   rectangular h w (fold (\<lambda>x res1. fold (\<lambda>y res2. set_cell res2 y x v) ys res1) xs res)"
  by (induction xs arbitrary: res) (simp_all add: fold_rows_rectangular)

lemma fold_cols_nth:
  "rectangular h w res \<Longrightarrow> r < h \<Longrightarrow> c < w \<Longrightarrow>
   fold (\<lambda>x res1. fold (\<lambda>y res2. set_cell res2 y x v) ys res1) xs res ! r ! c =
     (if (\<exists>y \<in> set ys. np_index h y = Some r) \<and> (\<exists>x \<in> set xs. np_index w x = Some c)
      then v else res ! r ! c)"
proof (induction xs arbitrary: res)
  case Nil
  then show ?case by simp
next
  case (Cons x xs)
  have "rectangular h w (fold (\<lambda>y res2. set_cell res2 y x v) ys res)"
    using Cons.prems(1) by (rule fold_rows_rectangular)
  from Cons.IH [OF this Cons.prems(2,3)] fold_rows_nth [OF Cons.prems, of x v ys]
  show ?case by auto
qed

lemma set_window:
  "set (window top_left sz) =
     {py_int (real_of_int (fst top_left) - real_of_int (fst sz) / 2) ..<
      py_int (real_of_int (fst top_left) + real_of_int (fst sz) / 2)}
     \<times> {py_int (real_of_int (snd top_left) - real_of_int (snd sz) / 2) ..<
        py_int (real_of_int (snd top_left) + real_of_int (snd sz) / 2)}"
  by (auto simp: window_def py_range_def)

lemma suppress_rectangular:
  "rectangular h w res \<Longrightarrow> rectangular h w (suppress res top_left sz)"
  by (simp add: suppress_def split_beta fold_cols_rectangular)

lemma suppress_nth:
  assumes "rectangular h w res" "r < h" "c < w"
  shows "suppress res top_left sz ! r ! c =
     (if \<exists>(x, y) \<in> set (window top_left sz). np_index w x = Some c \<and> np_index h y = Some r
      then SUPPRESSED else res ! r ! c)"
  unfolding set_window
  by (auto simp add: suppress_def split_beta fold_cols_nth [OF assms] py_range_def)

section \<open>The global maximum\<close>

lemma in_cells_iff:
  "(p, v) \<in> set (cells res) \<longleftrightarrow>
     (\<exists>r c. r < length res \<and> c < length (res ! r) \<and> p = (int c, int r) \<and> v = res ! r ! c)"
proof
  assume "(p, v) \<in> set (cells res)"
  then show "\<exists>r c. r < length res \<and> c < length (res ! r) \<and> p = (int c, int r) \<and> v = res ! r ! c"
    by (auto simp: cells_def in_set_enumerate_eq)
next
  assume "\<exists>r c. r < length res \<and> c < length (res ! r) \<and> p = (int c, int r) \<and> v = res ! r ! c"
  then obtain r c where rc: "r < length res" "c < length (res ! r)" "p = (int c, int r)"
      "v = res ! r ! c"
    by blast
  have row: "(r, res ! r) \<in> set (enumerate 0 res)"
    using rc(1) by (simp add: in_set_enumerate_eq)
  have col: "(c, res ! r ! c) \<in> set (enumerate 0 (res ! r))"
    using rc(2) by (simp add: in_set_enumerate_eq)
  have "(p, v) \<in> set (map (\<lambda>(c, v). ((int c, int r), v)) (enumerate 0 (res ! r)))"
    using col rc(3,4) by force
  then show "(p, v) \<in> set (cells res)"
    unfolding cells_def set_concat using row by force
qed

lemma fold_best_mem: "fold (\<lambda>d b. if snd b < snd d then d else b) cs c \<in> set (c # cs)"
  by (induction cs arbitrary: c) auto

lemma fold_best_ge_start:
  "snd (c :: 'a \<times> real) \<le> snd (fold (\<lambda>d b. if snd b < snd d then d else b) cs c)"
proof (induction cs arbitrary: c)
  case Nil
  show ?case by simp
next
  case (Cons d cs)
  show ?case
    using Cons [of d] Cons [of c] by auto
qed

lemma fold_best_ge:
  "(d :: 'a \<times> real) \<in> set (c # cs) \<Longrightarrow> snd d \<le> snd (fold (\<lambda>d b. if snd b < snd d then d else b) cs c)"
proof (induction cs arbitrary: c)
  case Nil
  then show ?case by simp
next
  case (Cons e cs)
  let ?b = "if snd c < snd e then e else c"
  have step: "fold (\<lambda>d b. if snd b < snd d then d else b) (e # cs) c
                = fold (\<lambda>d b. if snd b < snd d then d else b) cs ?b"
    by simp
  have start: "snd ?b \<le> snd (fold (\<lambda>d b. if snd b < snd d then d else b) cs ?b)"
    by (rule fold_best_ge_start)
  consider "d \<in> set cs" | "d = c" | "d = e"
    using Cons.prems by auto
  then have "snd d \<le> snd (fold (\<lambda>d b. if snd b < snd d then d else b) cs ?b)"
  proof cases
    case 1
    then show ?thesis by (intro Cons.IH) simp
  next
    case 2
    then have "snd d \<le> snd ?b" by simp
    then show ?thesis using start by (rule order_trans)
  next
    case 3
    then have "snd d \<le> snd ?b" by simp
    then show ?thesis using start by (rule order_trans)
  qed
  then show ?case by (simp only: step)
qed

lemma max_cell:
  assumes "cells res \<noteq> []"
  shows "(max_loc res, max_val res) \<in> set (cells res)"
    and "(p, v) \<in> set (cells res) \<Longrightarrow> v \<le> max_val res"
proof -
  obtain c cs where cs: "cells res = c # cs"
    using assms by (cases "cells res") auto
  let ?best = "fold (\<lambda>d b. if snd b < snd d then d else b) cs c"
  have mv: "max_val res = snd ?best" and ml: "max_loc res = fst ?best"
    by (simp_all add: max_val_def max_loc_def minMaxLoc_def cs Let_def)
  show "(max_loc res, max_val res) \<in> set (cells res)"
    using fold_best_mem [of cs c] by (simp add: mv ml cs)
  show "v \<le> max_val res" if "(p, v) \<in> set (cells res)"
    using fold_best_ge [of "(p, v)" c cs] that by (simp add: mv cs)
qed

lemma cells_nonempty:
  assumes "rectangular h w res" "0 < h" "0 < w"
  shows "cells res \<noteq> []"
proof -
  have "length res = h" "length (res ! 0) = w"
    using assms rectangular_nth [OF assms(1), of 0] by (simp_all add: rectangular_def)
  then have "((int 0, int 0), res ! 0 ! 0) \<in> set (cells res)"
    unfolding in_cells_iff using assms(2,3) by blast
  then show ?thesis by auto
qed

lemma max_loc_attained:
  assumes "rectangular h w res" "0 < h" "0 < w"
  shows "\<exists>r c. r < h \<and> c < w \<and> max_loc res = (int c, int r) \<and> res ! r ! c = max_val res"
  using max_cell(1) [OF cells_nonempty [OF assms]] assms(1) rectangular_nth [OF assms(1)]
  by (auto simp: in_cells_iff rectangular_def)

lemma max_val_upper:
  assumes "rectangular h w res" "r < h" "c < w"
  shows "res ! r ! c \<le> max_val res"
proof -
  have "((int c, int r), res ! r ! c) \<in> set (cells res)"
    using assms rectangular_nth [OF assms(1,2)] by (auto simp: in_cells_iff rectangular_def)
  moreover from this have "cells res \<noteq> []" by auto
  ultimately show ?thesis
    using max_cell(2) [of res "(int c, int r)" "res ! r ! c"] by blast
qed

lemma max_val_eqI:
  assumes "rectangular h w res" "r < h" "c < w" "res ! r ! c = m"
    and "\<And>r c. r < h \<Longrightarrow> c < w \<Longrightarrow> res ! r ! c \<le> m"
  shows "max_val res = m"
proof -
  obtain r' c' where "r' < h" "c' < w" "res ! r' ! c' = max_val res"
    using max_loc_attained [OF assms(1)] assms(2,3) by (metis gr_implies_not_zero not_gr_zero)
  then have "max_val res \<le> m" using assms(5) by metis
  moreover have "m \<le> max_val res" using max_val_upper [OF assms(1-3)] assms(4) by simp
  ultimately show ?thesis by simp
qed

lemma extract_step:
  "extract_matches precision threshold sz res acc =
     (if max_val res < precision \<and> threshold < max_val res
      then extract_matches precision threshold sz (suppress res (max_loc res) sz)
             (acc @ [Location (fst (max_loc res)) (snd (max_loc res))])
      else Some acc)"
  by (subst extract_matches.simps)
     (simp add: max_val_def max_loc_def FIND_METHOD_def split_beta Let_def)

lemma py_int_centre:
  assumes "0 \<le> s" "2 \<le> d"
  shows "py_int (real_of_int s - real_of_int d / 2) \<le> s"
    and "s < py_int (real_of_int s + real_of_int d / 2)"
proof -
  show "py_int (real_of_int s - real_of_int d / 2) \<le> s"
    using assms by (auto simp: py_int_def floor_le_iff ceiling_le_iff)
  have "real_of_int (s + 1) \<le> real_of_int s + real_of_int d / 2"
    using assms by simp
  then have "s + 1 \<le> \<lfloor>real_of_int s + real_of_int d / 2\<rfloor>"
    by (simp only: le_floor_iff)
  then show "s < py_int (real_of_int s + real_of_int d / 2)"
    using assms by (simp add: py_int_def)
qed

lemma py_range_one:
  assumes "0 \<le> s"
  shows "py_range (py_int (real_of_int s - real_of_int 1 / 2)) (py_int (real_of_int s + real_of_int 1 / 2))
           = (if s = 0 then [] else [s - 1])"
proof -
  have hi: "py_int (real_of_int s + 1 / 2) = s"
    using assms by (simp add: py_int_def)
  have up: "\<lceil>- (1 / 2) :: real\<rceil> = 0"
    by (rule ceiling_unique) simp_all
  have down: "\<lfloor>real_of_int s - 1 / 2\<rfloor> = s - 1"
    by (rule floor_unique) simp_all
  have lo: "py_int (real_of_int s - 1 / 2) = (if s = 0 then 0 else s - 1)"
    using assms up down by (auto simp: py_int_def)
  show ?thesis
    by (simp add: hi lo py_range_def)
qed

section \<open>One suppression step\<close>

lemma np_index_nat: "c < n \<Longrightarrow> np_index n (int c) = Some c"
  by (simp add: np_index_def)

lemma suppress_keeps_or_erases:
  assumes "rectangular h w res" "r < h" "c < w"
  shows "suppress res top_left sz ! r ! c = SUPPRESSED
       \<or> suppress res top_left sz ! r ! c = res ! r ! c"
  by (simp add: suppress_nth [OF assms])

lemma suppress_erases_max:
  assumes "rectangular h w res" "0 < h" "0 < w" "2 \<le> fst sz" "2 \<le> snd sz"
  shows "score_at (suppress res (max_loc res) sz) (max_loc res) = SUPPRESSED"
proof -
  obtain r c where rc: "r < h" "c < w" "max_loc res = (int c, int r)"
    using max_loc_attained [OF assms(1-3)] by blast
  have "(int c, int r) \<in> set (window (max_loc res) sz)"
    using py_int_centre [of "int c" "fst sz"] py_int_centre [of "int r" "snd sz"] assms(4,5)
    by (simp add: set_window rc(3))
  moreover have "np_index w (int c) = Some c" "np_index h (int r) = Some r"
    using rc by (simp_all add: np_index_nat)
  ultimately have "\<exists>(x, y) \<in> set (window (max_loc res) sz).
                      np_index w x = Some c \<and> np_index h y = Some r"
    by blast
  then show ?thesis
    by (simp add: score_at_def rc(3) suppress_nth [OF assms(1) rc(1,2)])
qed

lemma suppress_thin_keeps_max:
  assumes "rectangular h w res" "0 < h" "0 < w" "fst sz = 1 \<or> snd sz = 1"
  shows "score_at (suppress res (max_loc res) sz) (max_loc res) = max_val res"
proof -
  obtain r c where rc: "r < h" "c < w" "max_loc res = (int c, int r)"
      "res ! r ! c = max_val res"
    using max_loc_attained [OF assms(1-3)] by blast
  have miss: "np_index n x \<noteq> Some k"
    if "x \<in> set (py_range (py_int (real k - 1 / 2)) (py_int (real k + 1 / 2)))" for n x k
  proof -
    have "x \<in> set (if k = 0 then [] else [int k - 1])"
      using that py_range_one [of "int k", simplified] by simp
    then have "x = int k - 1" "0 < k"
      by (auto split: if_splits)
    then show ?thesis
      by (auto simp: np_index_def)
  qed
  have "\<not> (\<exists>(x, y) \<in> set (window (max_loc res) sz).
              np_index w x = Some c \<and> np_index h y = Some r)"
    using assms(4) miss [of _ c w] miss [of _ r h]
    by (auto simp: window_def rc(3))
  then show ?thesis
    by (simp add: score_at_def rc(3,4) suppress_nth [OF assms(1) rc(1,2)])
qed

lemma finite_candidates: "finite (candidates threshold h w res)"
proof (rule finite_subset)
  show "candidates threshold h w res \<subseteq> {..<h} \<times> {..<w}"
    by (auto simp: candidates_def)
qed simp

lemma candidates_shrink:
  assumes "rectangular h w res" "0 < h" "0 < w" "2 \<le> fst sz" "2 \<le> snd sz"
    and "SUPPRESSED < threshold" "threshold < max_val res"
  shows "candidates threshold h w (suppress res (max_loc res) sz) \<subset> candidates threshold h w res"
proof -
  obtain r c where rc: "r < h" "c < w" "max_loc res = (int c, int r)"
      "res ! r ! c = max_val res"
    using max_loc_attained [OF assms(1-3)] by blast
  have gone: "suppress res (max_loc res) sz ! r ! c = SUPPRESSED"
    using suppress_erases_max [OF assms(1-5)] by (simp add: score_at_def rc(3))
  have "(r, c) \<in> candidates threshold h w res"
    using rc assms(7) by (simp add: candidates_def)
  moreover have "(r, c) \<notin> candidates threshold h w (suppress res (max_loc res) sz)"
    using gone assms(6) by (simp add: candidates_def)
  moreover have "candidates threshold h w (suppress res (max_loc res) sz)
                   \<subseteq> candidates threshold h w res"
    using suppress_keeps_or_erases [OF assms(1), of _ _ "max_loc res" sz] assms(6)
    by (fastforce simp: candidates_def)
  ultimately show ?thesis by blast
qed

lemma extract_stop:
  "\<not> (max_val res < precision \<and> threshold < max_val res) \<Longrightarrow>
   extract_matches precision threshold sz res acc = Some acc"
  by (subst extract_step) (rule if_not_P)

lemma extract_continue:
  "max_val res < precision \<Longrightarrow> threshold < max_val res \<Longrightarrow>
   extract_matches precision threshold sz res acc =
     extract_matches precision threshold sz (suppress res (max_loc res) sz)
       (acc @ [Location (fst (max_loc res)) (snd (max_loc res))])"
  by (subst extract_step) simp

lemma extract_terminates:
  assumes "rectangular h w res" "0 < h" "0 < w" "2 \<le> fst sz" "2 \<le> snd sz"
    and "SUPPRESSED < threshold"
  shows "\<exists>ms. extract_matches precision threshold sz res acc = Some ms"
  using assms(1)
proof (induction "card (candidates threshold h w res)" arbitrary: res acc rule: less_induct)
  case less
  show ?case
  proof (cases "max_val res < precision \<and> threshold < max_val res")
    case False
    then show ?thesis by (simp add: extract_stop)
  next
    case True
    let ?res = "suppress res (max_loc res) sz"
    have "candidates threshold h w ?res \<subset> candidates threshold h w res"
      using candidates_shrink [OF less.prems assms(2-6)] True by simp
    then have "card (candidates threshold h w ?res) < card (candidates threshold h w res)"
      by (simp add: finite_candidates psubset_card_mono)
    moreover have "rectangular h w ?res"
      using less.prems by (rule suppress_rectangular)
    ultimately have "\<exists>ms. extract_matches precision threshold sz ?res
                       (acc @ [Location (fst (max_loc res)) (snd (max_loc res))]) = Some ms"
      by (rule less.hyps)
    then show ?thesis using True by (simp add: extract_continue)
  qed
qed

lemma extract_sound:
  assumes "extract_matches precision threshold sz res acc = Some ms"
  shows "\<forall>h w. rectangular h w res \<and> 0 < h \<and> 0 < w \<longrightarrow>
           (\<exists>new. ms = acc @ new
              \<and> (new \<noteq> [] \<longrightarrow> threshold < max_val res \<and> max_val res < precision
                    \<and> hd new = Location (fst (max_loc res)) (snd (max_loc res)))
              \<and> (\<forall>p \<in> set new.
                    0 \<le> loc_x p \<and> loc_x p < int w \<and> 0 \<le> loc_y p \<and> loc_y p < int h
                    \<and> score_at res (loc_x p, loc_y p) < precision
                    \<and> (SUPPRESSED \<le> threshold \<longrightarrow> threshold < score_at res (loc_x p, loc_y p))))"
  using assms
proof (induct rule: extract_matches.raw_induct [rotated, consumes 1, case_names step])
  case (step f precision threshold sz res acc ms)
  show ?case
  proof (intro allI impI, elim conjE)
    fix h w
    assume rect: "rectangular h w res" and pos: "0 < h" "0 < w"
    show "\<exists>new. ms = acc @ new
              \<and> (new \<noteq> [] \<longrightarrow> threshold < max_val res \<and> max_val res < precision
                    \<and> hd new = Location (fst (max_loc res)) (snd (max_loc res)))
              \<and> (\<forall>p \<in> set new.
                    0 \<le> loc_x p \<and> loc_x p < int w \<and> 0 \<le> loc_y p \<and> loc_y p < int h
                    \<and> score_at res (loc_x p, loc_y p) < precision
                    \<and> (SUPPRESSED \<le> threshold \<longrightarrow> threshold < score_at res (loc_x p, loc_y p)))"
    proof (cases "max_val res < precision \<and> threshold < max_val res")
      case False
      have body: "(if max_val res < precision \<and> threshold < max_val res
                   then f precision threshold sz (suppress res (max_loc res) sz)
                          (acc @ [Location (fst (max_loc res)) (snd (max_loc res))])
                   else Some acc) = Some ms"
        using step(2)
        by (auto simp: max_val_def max_loc_def FIND_METHOD_def split_beta Let_def
              split: if_splits)
      have "ms = acc"
        using body False by (simp only: if_not_P if_False option.inject)
      then show ?thesis by simp
    next
      case True
      let ?res = "suppress res (max_loc res) sz"
      let ?here = "Location (fst (max_loc res)) (snd (max_loc res))"
      have body: "(if max_val res < precision \<and> threshold < max_val res
                   then f precision threshold sz (suppress res (max_loc res) sz)
                          (acc @ [Location (fst (max_loc res)) (snd (max_loc res))])
                   else Some acc) = Some ms"
        using step(2)
        by (auto simp: max_val_def max_loc_def FIND_METHOD_def split_beta Let_def
              split: if_splits)
      have run: "f precision threshold sz ?res (acc @ [?here]) = Some ms"
        using body True by (simp only: if_P if_True)
      have rect': "rectangular h w ?res"
        using rect by (rule suppress_rectangular)
      obtain new where new: "ms = (acc @ [?here]) @ new"
        and rest: "\<forall>p \<in> set new.
                    0 \<le> loc_x p \<and> loc_x p < int w \<and> 0 \<le> loc_y p \<and> loc_y p < int h
                    \<and> (SUPPRESSED \<le> threshold \<longrightarrow> threshold < score_at ?res (loc_x p, loc_y p))"
        using step(1) [OF run] rect' pos by blast
      obtain r c where rc: "r < h" "c < w" "max_loc res = (int c, int r)"
          "res ! r ! c = max_val res"
        using max_loc_attained [OF rect pos] by blast
      have "0 \<le> loc_x p \<and> loc_x p < int w \<and> 0 \<le> loc_y p \<and> loc_y p < int h
              \<and> score_at res (loc_x p, loc_y p) < precision
              \<and> (SUPPRESSED \<le> threshold \<longrightarrow> threshold < score_at res (loc_x p, loc_y p))"
        if p: "p \<in> set (?here # new)" for p
      proof (cases "p = ?here")
        case True
        then show ?thesis
          using rc \<open>max_val res < precision \<and> threshold < max_val res\<close>
          by (simp add: score_at_def)
      next
        case False
        then have pn: "p \<in> set new" using p by simp
        then have b: "0 \<le> loc_x p" "loc_x p < int w" "0 \<le> loc_y p" "loc_y p < int h"
          using rest by auto
        then have n: "nat (loc_y p) < h" "nat (loc_x p) < w" by auto
        have "score_at res (loc_x p, loc_y p) \<le> max_val res"
          using max_val_upper [OF rect n] by (simp add: score_at_def)
        then have below: "score_at res (loc_x p, loc_y p) < precision"
          using True by simp
        have "threshold < score_at res (loc_x p, loc_y p)" if "SUPPRESSED \<le> threshold"
        proof -
          have "threshold < score_at ?res (loc_x p, loc_y p)"
            using rest pn that by blast
          then show ?thesis
            using suppress_keeps_or_erases [OF rect n, of "max_loc res" sz] that
            by (auto simp: score_at_def)
        qed
        then show ?thesis using b below by blast
      qed
      then show ?thesis
        using new True by (intro exI [of _ "?here # new"]) simp
    qed
  qed
qed

section \<open>Capture failures\<close>

text \<open>
  C9.  When the capture raises \<^verbatim>\<open>ScreenshotError\<close>, \<^verbatim>\<open>match_template\<close> returns the sentinel
  \<open>(-1, -1)\<close> and \<^verbatim>\<open>match_template_multiple\<close> returns the empty list; neither raises, the
  engine is not called, and the last log line is the warning.
\<close>

theorem capture_failure_is_masked:
  fixes pattern :: "'img Pattern" and w w' :: "'img world"
  assumes "capture_at env (captures w) region = Inl ScreenshotError"
    and "w' = emit Warning Screenshot_failed (searching pattern w)"
  shows "match_template env pattern region w = (Inr (Location (- 1) (- 1)), w')
       \<and> match_template_multiple env pattern region threshold w = Some (Inr [], w')
       \<and> engine_calls w' = engine_calls w
       \<and> logged w' = logged w @ [(Debug, Searching_for_pattern (pat_filename pattern)),
                                  (Warning, Screenshot_failed)]"
  using assms
  by (simp add: match_template_failed match_template_multiple_failed searching_def emit_def)

theorem capture_failure_is_masked_witness:
  "capture_at blind_env (captures start_world) (Some screen_region) = Inl ScreenshotError
   \<and> fst (match_template blind_env icon (Some screen_region) start_world)
       = Inr (Location (- 1) (- 1))
   \<and> map_option fst (match_template_multiple blind_env icon (Some screen_region) (1 / 2) start_world)
       = Some (Inr [])"
  using capture_failure_is_masked
          [of blind_env start_world "Some screen_region" _ icon "1 / 2", OF _ refl]
  by (simp add: blind_env_def demo_env_def)

section \<open>Channel depth\<close>



section \<open>The extraction loop\<close>

lemma wf_surfaceD:
  "wf_surface res \<Longrightarrow> rectangular (surf_height res) (surf_width res) res"
  "wf_surface res \<Longrightarrow> 0 < surf_height res"
  "wf_surface res \<Longrightarrow> 0 < surf_width res"
  by (simp_all add: wf_surface_rectangular)




text \<open>
  C4.  The suppression step at the failing input: the best match of \<open>corner_surface\<close> is its
  top left cell, the window of a 2 by 2 pattern around it reaches column \<open>-1\<close> and row
  \<open>-1\<close>, and the writes at those indices are not skipped: they land in the last column
  and the last row, so the cells \<open>(2, 0)\<close>, \<open>(0, 2)\<close> and \<open>(2, 2)\<close>, which lie outside the
  window, lose their scores, and the candidates at \<open>(0, 2)\<close> and \<open>(2, 2)\<close> are never
  reported.
\<close>

theorem suppression_wraps_at_negative_indices:
  "max_loc corner_surface = (0, 0)
   \<and> window (0, 0) (2, 2) = [(- 1, - 1), (- 1, 0), (0, - 1), (0, 0)]
   \<and> suppress corner_surface (0, 0) (2, 2) =
       [[SUPPRESSED, 2 / 10, SUPPRESSED], [4 / 10, 5 / 10, 6 / 10], [SUPPRESSED, 1 / 10, SUPPRESSED]]
   \<and> extract_matches (9 / 10) (1 / 2) (2, 2) corner_surface [] = Some [Location 0 0, Location 2 1]"
  by code_simp

text \<open>
  C10, as stated, fails for a pattern of width 1 whose best match is not in column 0: the
  suppression window is the column to the left of the match, not the empty set.
\<close>

theorem thin_pattern_window_not_empty:
  "max_loc thin_surface = (1, 0)
   \<and> window (max_loc thin_surface) (1, 2) = [(0, - 1), (0, 0)]
   \<and> suppress thin_surface (max_loc thin_surface) (1, 2)
       = [[SUPPRESSED, 8 / 10], [SUPPRESSED, 3 / 10]]"
  by code_simp

lemma max_loc_not_in_thin_window:
  assumes "rectangular h w res" "0 < h" "0 < w" "fst sz = 1 \<or> snd sz = 1"
  shows "max_loc res \<notin> set (window (max_loc res) sz)"
proof -
  obtain r c where rc: "max_loc res = (int c, int r)"
    using max_loc_attained [OF assms(1-3)] by blast
  have miss: "int k \<notin> set (py_range (py_int (real k - 1 / 2)) (py_int (real k + 1 / 2)))" for k
    using py_range_one [of "int k", simplified] by simp
  show ?thesis
    using assms(4) miss [of c] miss [of r] by (auto simp: window_def rc)
qed

text \<open>
  C10, amended.  On a well-formed surface, for a pattern at least 2 wide and 2 high and an
  overlap threshold above the suppression score, the extraction loop returns: the window
  of every accepting turn contains the cell of the current maximum and that cell is
  overwritten with the suppression score.  For a pattern of width 1 or height 1 the window
  never contains the cell of the current maximum, which keeps its score.
\<close>

theorem extraction_terminates_unless_thin:
  assumes "wf_surface res"
  shows "(2 \<le> fst sz \<and> 2 \<le> snd sz \<and> SUPPRESSED < threshold \<longrightarrow>
            (\<exists>ms. extract_matches precision threshold sz res acc = Some ms)
            \<and> max_loc res \<in> set (window (max_loc res) sz)
            \<and> score_at (suppress res (max_loc res) sz) (max_loc res) = SUPPRESSED)
       \<and> (fst sz = 1 \<or> snd sz = 1 \<longrightarrow>
            max_loc res \<notin> set (window (max_loc res) sz)
            \<and> score_at (suppress res (max_loc res) sz) (max_loc res) = max_val res)"
proof (intro conjI impI)
  note r = wf_surfaceD [OF assms]
  {
    assume wide: "2 \<le> fst sz \<and> 2 \<le> snd sz \<and> SUPPRESSED < threshold"
    then show "\<exists>ms. extract_matches precision threshold sz res acc = Some ms"
      using extract_terminates [OF r] by blast
    show "score_at (suppress res (max_loc res) sz) (max_loc res) = SUPPRESSED"
      using suppress_erases_max [OF r] wide by blast
    obtain y x where rc: "max_loc res = (int x, int y)"
      using max_loc_attained [OF r] by blast
    show "max_loc res \<in> set (window (max_loc res) sz)"
      using py_int_centre [of "int x" "fst sz"] py_int_centre [of "int y" "snd sz"] wide
      by (simp add: set_window rc)
  }
  {
    assume thin: "fst sz = 1 \<or> snd sz = 1"
    then show "max_loc res \<notin> set (window (max_loc res) sz)"
      by (rule max_loc_not_in_thin_window [OF r])
    show "score_at (suppress res (max_loc res) sz) (max_loc res) = max_val res"
      using thin by (rule suppress_thin_keeps_max [OF r])
  }
qed

theorem extraction_terminates_unless_thin_witness:
  "wf_surface spread_surface
   \<and> (\<exists>ms. extract_matches (9 / 10) (1 / 2) (2, 2) spread_surface [] = Some ms)
   \<and> score_at (suppress spread_surface (max_loc spread_surface) (2, 2)) (max_loc spread_surface)
       = SUPPRESSED
   \<and> max_loc spread_surface \<notin> set (window (max_loc spread_surface) (1, 2))
   \<and> score_at (suppress spread_surface (max_loc spread_surface) (1, 2)) (max_loc spread_surface)
       = max_val spread_surface"
proof -
  have wf: "wf_surface spread_surface"
    by code_simp
  have lt: "SUPPRESSED < 1 / 2"
    by (simp add: SUPPRESSED_def)
  show ?thesis
    using extraction_terminates_unless_thin [OF wf, of "(2, 2)" "1 / 2" "9 / 10" "[]"]
          extraction_terminates_unless_thin [OF wf, of "(1, 2)" "1 / 2" "9 / 10" "[]"] wf lt
    by simp
qed

section \<open>Coordinates of the results\<close>

lemma max_loc_bounds:
  assumes "wf_surface res"
  shows "0 \<le> fst (max_loc res)" "fst (max_loc res) < int (surf_width res)"
    "0 \<le> snd (max_loc res)" "snd (max_loc res) < int (surf_height res)"
    "score_at res (max_loc res) = max_val res"
  using max_loc_attained [OF wf_surfaceD [OF assms]]
  by (auto simp: score_at_def)

lemma extract_sound_nil:
  assumes run: "extract_matches precision threshold sz res [] = Some ms"
    and wf: "wf_surface res"
  shows "ms \<noteq> [] \<Longrightarrow> hd ms = Location (fst (max_loc res)) (snd (max_loc res))"
    and "p \<in> set ms \<Longrightarrow> 0 \<le> loc_x p \<and> loc_x p < int (surf_width res)
                        \<and> 0 \<le> loc_y p \<and> loc_y p < int (surf_height res)
                        \<and> score_at res (loc_x p, loc_y p) < precision"
proof -
  have "rectangular (surf_height res) (surf_width res) res
          \<and> 0 < surf_height res \<and> 0 < surf_width res"
    using wf_surfaceD [OF wf] by simp
  from extract_sound [OF run, rule_format, OF this]
  obtain new where new: "ms = [] @ new"
    and first: "new \<noteq> [] \<longrightarrow> threshold < max_val res \<and> max_val res < precision
                  \<and> hd new = Location (fst (max_loc res)) (snd (max_loc res))"
    and inside: "\<forall>p \<in> set new. 0 \<le> loc_x p \<and> loc_x p < int (surf_width res)
                        \<and> 0 \<le> loc_y p \<and> loc_y p < int (surf_height res)
                        \<and> score_at res (loc_x p, loc_y p) < precision
                        \<and> (SUPPRESSED \<le> threshold
                             \<longrightarrow> threshold < score_at res (loc_x p, loc_y p))"
    by (elim exE conjE)
  have eq: "new = ms" using new by simp
  show "hd ms = Location (fst (max_loc res)) (snd (max_loc res))" if "ms \<noteq> []"
    using first that unfolding eq by (elim impE conjE) assumption+
  show "0 \<le> loc_x p \<and> loc_x p < int (surf_width res)
                        \<and> 0 \<le> loc_y p \<and> loc_y p < int (surf_height res)
                        \<and> score_at res (loc_x p, loc_y p) < precision" if "p \<in> set ms"
    using inside [unfolded eq, rule_format, OF that] by (elim conjE) (intro conjI)
qed

text \<open>
  C6.  For a search in a region \<open>r\<close>, the list that \<^verbatim>\<open>match_template_multiple\<close> returns is the
  result of the extraction loop on the engine's surface alone: every location lies within
  the bounds of the surface and the first one is the surface's maximum location itself,
  whereas \<^verbatim>\<open>match_template\<close>, on the same capture, adds the origin of \<open>r\<close> to it.
\<close>

theorem multiple_matches_are_surface_local:
  fixes pattern :: "'img Pattern"
  assumes "capture_at env (captures w) (Some r) = Inr stack_image"
    and "matchTemplate env (fst (chosen pattern stack_image)) (snd (chosen pattern stack_image))
           = Inr res"
    and "wf_surface res"
    and "match_template_multiple env pattern (Some r) threshold w = Some (Inr ms, w')"
  shows "extract_matches (pat_similarity pattern) threshold (pat_size pattern) res [] = Some ms
       \<and> (\<forall>p \<in> set ms. 0 \<le> loc_x p \<and> loc_x p < int (surf_width res)
                        \<and> 0 \<le> loc_y p \<and> loc_y p < int (surf_height res))
       \<and> (ms \<noteq> [] \<longrightarrow> hd ms = Location (fst (max_loc res)) (snd (max_loc res)))
       \<and> (pat_similarity pattern \<le> max_val res \<longrightarrow>
            fst (match_template env pattern (Some r) w)
              = Inr (Location (fst (max_loc res) + rect_x r) (snd (max_loc res) + rect_y r)))"
proof -
  have "map_option (\<lambda>final_matches. (Inr final_matches :: error + Location list,
            (searching pattern w)\<lparr>engine_calls := engine_calls w @ [chosen pattern stack_image]\<rparr>))
          (extract_matches (pat_similarity pattern) threshold (pat_size pattern) res [])
        = Some (Inr ms, w')"
    using assms(4) unfolding match_template_multiple_captured [OF assms(1)] Let_def assms(2)
    by simp
  then have run: "extract_matches (pat_similarity pattern) threshold (pat_size pattern) res []
                    = Some ms"
    by (cases "extract_matches (pat_similarity pattern) threshold (pat_size pattern) res []")
       simp_all
  have inside: "\<forall>p \<in> set ms. 0 \<le> loc_x p \<and> loc_x p < int (surf_width res)
                        \<and> 0 \<le> loc_y p \<and> loc_y p < int (surf_height res)"
    using extract_sound_nil(2) [OF run assms(3)] by blast
  have first: "ms \<noteq> [] \<longrightarrow> hd ms = Location (fst (max_loc res)) (snd (max_loc res))"
    using extract_sound_nil(1) [OF run assms(3)] by blast
  have pos: "fst (max_loc res) \<noteq> - 1" "snd (max_loc res) \<noteq> - 1"
    using max_loc_bounds(1,3) [OF assms(3)] by simp_all
  have single: "fst (match_template env pattern (Some r) w)
              = Inr (Location (fst (max_loc res) + rect_x r) (snd (max_loc res) + rect_y r))"
    if "pat_similarity pattern \<le> max_val res"
    unfolding match_template_captured [OF assms(1)] Let_def assms(2)
    using that pos by (simp add: translate_def)
  show ?thesis
    using run inside first single by (intro conjI impI) simp_all
qed

theorem multiple_matches_are_surface_local_witness:
  "map_option fst (match_template_multiple busy_env tile (Some screen_region) (1 / 2) start_world)
     = Some (Inr [Location 1 2, Location 2 1])
   \<and> rect_x screen_region = 5 \<and> rect_y screen_region = 7
   \<and> max_loc spread_surface = (1, 2)
   \<and> fst (match_template busy_env (tile\<lparr>pat_similarity := 8 / 10\<rparr>) (Some screen_region) start_world)
       = Inr (Location 6 9)"
proof -
  have cap: "capture_at busy_env (captures start_world) (Some screen_region)
               = Inr \<lparr>shot_color = [[1]], shot_gray = spread_surface\<rparr>"
    by (simp add: busy_env_def demo_env_def)
  have eng: "matchTemplate busy_env (fst (chosen p \<lparr>shot_color = [[1]], shot_gray = spread_surface\<rparr>))
               (snd (chosen p \<lparr>shot_color = [[1]], shot_gray = spread_surface\<rparr>)) = Inr spread_surface"
    if "pat_similarity p \<noteq> 0.99" for p :: "surface Pattern"
    using that by (simp add: busy_env_def demo_env_def chosen_def)
  have wf: "wf_surface spread_surface"
    by code_simp
  have run: "match_template_multiple busy_env tile (Some screen_region) (1 / 2) start_world
           = Some (Inr [Location 1 2, Location 2 1],
                   (searching tile start_world)\<lparr>engine_calls := [(spread_surface, [[1]])]\<rparr>)"
    by code_simp
  have run': "match_template_multiple busy_env (tile\<lparr>pat_similarity := 8 / 10\<rparr>) (Some screen_region)
                (1 / 2) start_world
           = Some (Inr [], (searching tile start_world)\<lparr>engine_calls := [(spread_surface, [[1]])]\<rparr>)"
    by code_simp
  have mx: "max_val spread_surface = 8 / 10" "max_loc spread_surface = (1, 2)"
    by code_simp+
  show ?thesis
    using multiple_matches_are_surface_local [OF cap eng wf run]
          multiple_matches_are_surface_local [OF cap eng wf run'] run mx
    by (simp add: tile_def screen_region_def)
qed








section \<open>The polling wrappers and the guard\<close>

lemma match_template_counters:
  "captures (snd (match_template env pattern region w)) = Suc (captures w)"
  "clock_reads (snd (match_template env pattern region w)) = clock_reads w"
proof -
  show "captures (snd (match_template env pattern region w)) = Suc (captures w)"
  proof (cases "capture_at env (captures w) region")
    case (Inl e)
    then show ?thesis
      by (simp add: match_template_failed searching_def emit_def)
  next
    case (Inr stack_image)
    then show ?thesis
      by (simp add: match_template_captured Let_def searching_def emit_def split: sum.split)
  qed
  show "clock_reads (snd (match_template env pattern region w)) = clock_reads w"
  proof (cases "capture_at env (captures w) region")
    case (Inl e)
    then show ?thesis
      by (simp add: match_template_failed searching_def emit_def)
  next
    case (Inr stack_image)
    then show ?thesis
      by (simp add: match_template_captured Let_def searching_def emit_def split: sum.split)
  qed
qed

lemma image_vanish_loop_found:
  assumes "start_time < end_time"
    and "match_template env pattern region w = (Inr pt, w1)"
  shows "image_vanish_loop env pattern region end_time True start_time w =
           image_vanish_loop env pattern region end_time (loc_x pt \<noteq> - 1 \<and> loc_y pt \<noteq> - 1)
             (now_at env (clock_reads w1)) (w1\<lparr>clock_reads := Suc (clock_reads w1)\<rparr>)"
  using assms
  by (subst image_vanish_loop.simps) (simp add: now_def)

lemma image_vanish_loop_done:
  "\<not> (pattern_found \<and> start_time < end_time) \<Longrightarrow>
   image_vanish_loop env pattern region end_time pattern_found start_time w =
     Some (Inr (if pattern_found then None else Some True), w)"
  by (subst image_vanish_loop.simps) (rule if_not_P)

lemma image_vanish_loop_expires:
  fixes w :: "'img world"
  assumes "\<And>k w1. k < n \<Longrightarrow> captures w1 = captures w + k \<Longrightarrow>
             \<exists>pt. fst (match_template env pattern region w1) = Inr pt
                  \<and> loc_x pt \<noteq> - 1 \<and> loc_y pt \<noteq> - 1"
    and "n = 0 \<Longrightarrow> end_time \<le> start_time"
    and "0 < n \<Longrightarrow> start_time < end_time"
    and "\<And>k. Suc k < n \<Longrightarrow> now_at env (clock_reads w + k) < end_time"
    and "0 < n \<Longrightarrow> end_time \<le> now_at env (clock_reads w + (n - 1))"
  shows "\<exists>w'. image_vanish_loop env pattern region end_time True start_time w = Some (Inr None, w')
             \<and> clock_reads w' = clock_reads w + n \<and> captures w' = captures w + n"
  using assms
proof (induction n arbitrary: start_time w)
  case 0
  then show ?case
    by (simp add: image_vanish_loop_done)
next
  case (Suc n)
  have lt: "start_time < end_time"
    using Suc.prems(3) by simp
  obtain pt where pt: "fst (match_template env pattern region w) = Inr pt"
      "loc_x pt \<noteq> - 1" "loc_y pt \<noteq> - 1"
    using Suc.prems(1) [of 0 w] by auto
  define w1 where "w1 = snd (match_template env pattern region w)"
  have run: "match_template env pattern region w = (Inr pt, w1)"
    using pt(1) by (simp add: w1_def prod_eq_iff)
  have c1: "captures w1 = Suc (captures w)" "clock_reads w1 = clock_reads w"
    by (simp_all add: w1_def match_template_counters)
  let ?w2 = "w1\<lparr>clock_reads := Suc (clock_reads w1)\<rparr>"
  let ?t = "now_at env (clock_reads w1)"
  have step: "image_vanish_loop env pattern region end_time True start_time w =
                image_vanish_loop env pattern region end_time True ?t ?w2"
    using image_vanish_loop_found [OF lt run] pt(2,3) by simp
  have "\<exists>w'. image_vanish_loop env pattern region end_time True ?t ?w2 = Some (Inr None, w')
             \<and> clock_reads w' = clock_reads ?w2 + n \<and> captures w' = captures ?w2 + n"
  proof (rule Suc.IH)
    fix k and w3 :: "'img world"
    assume "k < n" "captures w3 = captures ?w2 + k"
    then show "\<exists>pt. fst (match_template env pattern region w3) = Inr pt
                  \<and> loc_x pt \<noteq> - 1 \<and> loc_y pt \<noteq> - 1"
      using Suc.prems(1) [of "Suc k" w3] c1 by simp
  next
    assume "n = 0"
    then show "end_time \<le> ?t"
      using Suc.prems(5) c1 by simp
  next
    assume "0 < n"
    then show "?t < end_time"
      using Suc.prems(4) [of 0] c1 by simp
  next
    fix k
    assume "Suc k < n"
    then show "now_at env (clock_reads ?w2 + k) < end_time"
      using Suc.prems(4) [of "Suc k"] c1 by simp
  next
    assume "0 < n"
    then show "end_time \<le> now_at env (clock_reads ?w2 + (n - 1))"
      using Suc.prems(5) c1 by simp
  qed
  then show ?case
    using c1 by (simp add: step)
qed

lemma guard_passes:
  "fst (is_pattern_size_correct pattern (Some r) w) = Inr True \<Longrightarrow>
   is_pattern_size_correct pattern (Some r) w = (Inr True, w)"
  by (auto simp: guard_present)

text \<open>
  C1, amended.  For a pattern and a region that pass the size guard and a given timeout:
  when the deadline passes while every search attempt still finds the pattern (each call
  of \<^verbatim>\<open>match_template\<close> returns a point with neither coordinate equal to \<open>-1\<close>),
  \<^verbatim>\<open>image_vanish\<close> returns, and what it returns is the null result \<^verbatim>\<open>None\<close>, the value it
  also returns when the guard fails.  The clock is read once before the loop and once
  after each of the \<open>n\<close> attempts; the deadline is the first reading plus the timeout.
\<close>

theorem vanish_timeout_is_null:
  fixes w :: "'img world"
  assumes "fst (is_pattern_size_correct pattern (Some r) w) = Inr True"
    and "\<forall>k<n. now_at env (clock_reads w + k) < now_at env (clock_reads w) + timedelta_seconds t"
    and "now_at env (clock_reads w) + timedelta_seconds t \<le> now_at env (clock_reads w + n)"
    and "\<forall>k<n. \<forall>w1. captures w1 = captures w + k \<longrightarrow>
           (\<exists>pt. fst (match_template env pattern (Some r) w1) = Inr pt
                \<and> loc_x pt \<noteq> - 1 \<and> loc_y pt \<noteq> - 1)"
  shows "\<exists>w'. image_vanish env pattern (Some t) (Some r) w = Some (Inr None, w')
             \<and> captures w' = captures w + n \<and> clock_reads w' = clock_reads w + n + 1"
proof -
  let ?start = "now_at env (clock_reads w)"
  let ?w = "w\<lparr>clock_reads := Suc (clock_reads w)\<rparr>"
  have unfold: "image_vanish env pattern (Some t) (Some r) w =
                  image_vanish_loop env pattern (Some r) (?start + timedelta_seconds t) True ?start ?w"
    by (simp add: image_vanish_def guard_passes [OF assms(1)] now_def)
  have "\<exists>w'. image_vanish_loop env pattern (Some r) (?start + timedelta_seconds t) True ?start ?w = Some (Inr None, w')
             \<and> clock_reads w' = clock_reads ?w + n \<and> captures w' = captures ?w + n"
  proof (rule image_vanish_loop_expires)
    fix k and w1 :: "'img world"
    assume "k < n" "captures w1 = captures ?w + k"
    then show "\<exists>pt. fst (match_template env pattern (Some r) w1) = Inr pt
                  \<and> loc_x pt \<noteq> - 1 \<and> loc_y pt \<noteq> - 1"
      using assms(4) by simp
  next
    assume "n = 0"
    then show "?start + timedelta_seconds t \<le> ?start"
      using assms(3) by simp
  next
    assume "0 < n"
    then show "?start < ?start + timedelta_seconds t"
      using assms(2) [rule_format, of 0] by simp
  next
    fix k
    assume "Suc k < n"
    then show "now_at env (clock_reads ?w + k) < ?start + timedelta_seconds t"
      using assms(2) [rule_format, of "Suc k"] by simp
  next
    assume "0 < n"
    then show "?start + timedelta_seconds t \<le> now_at env (clock_reads ?w + (n - 1))"
      using assms(3) by simp
  qed
  then show ?thesis
    by (auto simp: unfold)
qed

text \<open>
  C1, as stated, fails: the guard passes, every attempt finds the pattern at \<open>(6, 7)\<close>, the
  deadline of two seconds passes at the third reading of the clock, and the result is
  \<^verbatim>\<open>None\<close>, not \<^verbatim>\<open>False\<close>.
\<close>

theorem vanish_timeout_returns_null_not_false:
  "fst (is_pattern_size_correct icon (Some screen_region) start_world) = Inr True
   \<and> fst (match_template demo_env icon (Some screen_region) start_world) = Inr (Location 6 7)
   \<and> map_option fst (image_vanish demo_env icon (Some 2) (Some screen_region) start_world)
       = Some (Inr None)
   \<and> map_option fst (image_vanish demo_env icon (Some 2) (Some screen_region) start_world)
       \<noteq> Some (Inr (Some False))
   \<and> map_option (clock_reads \<circ> snd)
        (image_vanish demo_env icon (Some 2) (Some screen_region) start_world) = Some 3"
  by code_simp

text \<open>
  Why the amended statement speaks of both coordinates: \<^verbatim>\<open>image_vanish\<close> takes a point for
  a match only when neither coordinate is \<open>-1\<close>.  In a region whose origin is left of the
  screen's, a match in local column 1 comes back as \<open>(-1, 7)\<close>, which is not the sentinel,
  and \<^verbatim>\<open>image_vanish\<close> reads it as vanished.
\<close>

lemma vanish_reads_edge_point_as_vanished:
  "fst (match_template demo_env icon (Some edge_region) start_world) = Inr (Location (- 1) 7)
   \<and> map_option fst (image_vanish demo_env icon (Some 2) (Some edge_region) start_world)
       = Some (Inr (Some True))"
  by code_simp

theorem vanish_timeout_is_null_witness:
  "fst (is_pattern_size_correct icon (Some screen_region) start_world) = Inr True
   \<and> (\<exists>w'. image_vanish demo_env icon (Some 2) (Some screen_region) start_world
              = Some (Inr None, w') \<and> captures w' = 2 \<and> clock_reads w' = 3)"
proof -
  have guard: "fst (is_pattern_size_correct icon (Some screen_region) start_world) = Inr True"
    by code_simp
  have two: "timedelta_seconds 2 = 2"
    by (simp add: timedelta_seconds_def round_half_even_def)
  have polls: "\<forall>k<2. now_at demo_env (clock_reads start_world + k)
                 < now_at demo_env (clock_reads start_world) + timedelta_seconds 2"
    by (simp add: demo_env_def start_world_def two)
  have expiry: "now_at demo_env (clock_reads start_world) + timedelta_seconds 2
                  \<le> now_at demo_env (clock_reads start_world + 2)"
    by (simp add: demo_env_def start_world_def two)
  have cap: "capture_at demo_env (captures w1) (Some screen_region)
               = Inr \<lparr>shot_color = [[1]], shot_gray = [[1 / 2, 1]]\<rparr>" for w1 :: "surface world"
    by (simp add: demo_env_def)
  have mx: "max_val [[1 / 2, 1]] = 1" "max_loc [[1 / 2, 1]] = (1, 0)"
    by code_simp+
  have found: "fst (match_template demo_env icon (Some screen_region) w1) = Inr (Location 6 7)"
    for w1 :: "surface world"
    unfolding match_template_captured [OF cap]
    by (simp add: Let_def chosen_def icon_def demo_env_def mx translate_def screen_region_def)
  have present: "\<forall>k<2. \<forall>w1. captures w1 = captures start_world + k \<longrightarrow>
           (\<exists>pt. fst (match_template demo_env icon (Some screen_region) w1) = Inr pt
                \<and> loc_x pt \<noteq> - 1 \<and> loc_y pt \<noteq> - 1)"
    by (simp add: found)
  show ?thesis
    using vanish_timeout_is_null [OF guard polls expiry present] guard
    by (auto simp: start_world_def eval_nat_numeral)
qed

text \<open>
  With a region, the guard compares the two sizes, and an oversize pattern makes
  \<^verbatim>\<open>image_find\<close> return \<^verbatim>\<open>None\<close> after a warning, with no capture, no reading of the clock
  and no call of the engine.
\<close>

lemma guard_with_region:
  "fst (is_pattern_size_correct pattern (Some r) w)
     = Inr (fst (pat_size pattern) \<le> rect_width r \<and> snd (pat_size pattern) \<le> rect_height r)"
  "rect_width r < fst (pat_size pattern) \<or> rect_height r < snd (pat_size pattern) \<Longrightarrow>
   \<exists>w'. image_find env pattern timeout (Some r) w = Some (Inr None, w')
      \<and> engine_calls w' = engine_calls w \<and> captures w' = captures w
      \<and> clock_reads w' = clock_reads w \<and> logged w' \<noteq> logged w"
  by (auto simp: guard_present image_find_def)

text \<open>
  C7.  The guard at the failing input, its region left out: the attribute access
  \<^verbatim>\<open>region.width\<close> raises \<^verbatim>\<open>AttributeError\<close> instead of comparing the pattern with the
  full screen, and \<^verbatim>\<open>image_find\<close> passes the error on to its caller.
\<close>

theorem guard_raises_without_region:
  "is_pattern_size_correct pattern None w = (Inl AttributeError, w)
   \<and> image_find env pattern timeout None w = Some (Inl AttributeError, w)"
  by (simp add: image_find_def guard_absent)

text \<open>
  C2.  The wrappers at the failing inputs: with the region left out both raise
  \<^verbatim>\<open>AttributeError\<close>; with the timeout left out \<^verbatim>\<open>image_vanish\<close> raises \<^verbatim>\<open>TypeError\<close>,
  where \<^verbatim>\<open>image_find\<close> falls back to the configured wait and returns the match.
\<close>

theorem omitted_arguments_raise:
  "map_option fst (image_find demo_env icon None None start_world) = Some (Inl AttributeError)
   \<and> map_option fst (image_vanish demo_env icon (Some 2) None start_world) = Some (Inl AttributeError)
   \<and> map_option fst (image_vanish demo_env icon None (Some screen_region) start_world)
       = Some (Inl TypeError)
   \<and> map_option fst (image_find demo_env icon None (Some screen_region) start_world)
       = Some (Inr (Some (Location 6 7)))"
  by code_simp

end
